theory Spec2Isabelle
  imports Main "HOL-Library.AList"
begin

section \<open>Core/MemoryManager.js: the asset cache\<close>

text \<open>
  The source file holds two versions of the module. The first one (lines 1-241) keeps a
  pool of \<open>MemoryItem\<close> objects and reuses them; its operations carry the suffix
  \<open>_pool\<close> here. The second one (lines 242-459) allocates a new \<open>MemoryItem\<close> for each
  slot and exports \<open>updateAccessTime\<close>; its operations carry the suffix \<open>_fresh\<close>.
  JavaScript is single threaded and the module state is private, so every exported function
  is a function from the module state to the new module state and a return value.

  The first version uses \<open>_lastAccessTime\<close> in \<open>get\<close> (line 82), \<open>clean\<close> (line 136) and
  \<open>remove\<close> (line 209) and never declares it; the declaration of line 283 is local to the
  second version. Reading an identifier that is not declared throws \<open>ReferenceError\<close>, so
  these three functions of the first version throw where they get to it, and what they did
  to the module state before stays done. The second version has no throwing operation. The
  early returns of the source are branches of the functions here. Callbacks are opaque: a
  call of one is recorded and it does not call back into the module. The timer of the first
  version that calls \<open>gc()\<close> does not touch the module state and is left out.
\<close>

subsection \<open>JavaScript values that the cache stores\<close>

type_synonym texture = nat
type_synonym callback = nat

text \<open>
  The module looks at a stored value in four ways only: whether it is truthy, its
  \<open>frames\<close> array (each frame with a \<open>texture\<close>), its own \<open>texture\<close>, and
  \<open>match\<close>, which strings have. \<open>Falsy\<close> stands for \<open>undefined\<close>, \<open>null\<close> and the
  other falsy values that are not strings; the empty string is \<open>Str []\<close>. An object without
  \<open>frames\<close> and \<open>texture\<close> is \<open>Obj None None\<close>. A texture is a \<open>WebGLTexture\<close> object,
  named by a number; callbacks are named by numbers as well.
\<close>

datatype jsval =
    Falsy
  | Str string
  | Obj "texture option list option" "texture option"

fun truthy :: "jsval \<Rightarrow> bool" where
  "truthy Falsy = False"
| "truthy (Str s) = (s \<noteq> [])"
| "truthy (Obj fs t) = True"

fun frames_of :: "jsval \<Rightarrow> texture option list option" where
  "frames_of (Obj fs t) = fs"
| "frames_of v = None"

fun texture_of :: "jsval \<Rightarrow> texture option" where
  "texture_of (Obj fs t) = t"
| "texture_of v = None"

text \<open>
  What the module does to the outside world, in the order it does it: a callback is called
  with an argument, the WebGL context is asked \<open>isTexture\<close>, told \<open>deleteTexture\<close>, and
  \<open>URL.revokeObjectURL\<close> is called.
\<close>

datatype event =
    Fire callback jsval
  | IsTexture texture
  | DeleteTexture texture
  | RevokeObjectURL string

text \<open>What a function can throw.\<close>

datatype error = ReferenceError

subsection \<open>Core/MemoryItem\<close>

text \<open>
  Modelled from the spec: \<open>Core/MemoryItem\<close> is imported by the module and is not part of
  the source file. The spec describes a slot with a state (Pending, Loaded, Error), a payload
  and the waiting listeners in registration order; a listener registered before completion is
  called once at the transition, a listener registered after completion is called at once with
  the resolved outcome, and listeners are cleared when they have been called. A slot is
  created Pending on the first \<open>get\<close> or \<open>set\<close> of an unseen key.
\<close>

datatype item_state = Pending | Loaded | Error

datatype event_type = OnLoad | OnError

record MemoryItem =
  state :: item_state
  data :: jsval
  listeners :: "(event_type \<times> callback) list"

text \<open>Modelled from the spec: \<open>new MemoryItem()\<close>, a pending slot without payload.\<close>

definition new_MemoryItem :: MemoryItem where
  "new_MemoryItem = \<lparr>state = Pending, data = Falsy, listeners = []\<rparr>"

text \<open>
  Modelled from the spec: \<open>item.reset()\<close>, which \<open>Core/MemoryItem\<close> would have to
  define for the first version. The spec has the slot of an unseen key created Pending, with
  no payload and no listener, whichever way the slot is obtained; so a slot that is reset is
  as a new one.
\<close>

definition reset :: "MemoryItem \<Rightarrow> MemoryItem" where
  "reset item = item\<lparr>state := Pending, data := Falsy, listeners := []\<rparr>"

text \<open>Modelled from the spec: \<open>item.complete\<close>, true for Loaded and Error.\<close>

definition complete :: "MemoryItem \<Rightarrow> bool" where
  "complete item = (state item \<noteq> Pending)"

text \<open>
  Modelled from the spec: \<open>item.addEventListener(type, callback)\<close>. It returns the item
  and the calls it made.
\<close>

definition addEventListener :: "event_type \<Rightarrow> callback \<Rightarrow> MemoryItem \<Rightarrow> MemoryItem \<times> event list" where
  "addEventListener ty cb item =
     (if complete item then
        (item, if (ty = OnLoad \<and> state item = Loaded) \<or> (ty = OnError \<and> state item = Error)
               then [Fire cb (data item)] else [])
      else (item\<lparr>listeners := listeners item @ [(ty, cb)]\<rparr>, []))"

text \<open>
  Modelled from the spec: the listeners of one type are called in registration order with the
  resolved value.
\<close>

definition fire_all :: "event_type \<Rightarrow> jsval \<Rightarrow> (event_type \<times> callback) list \<Rightarrow> event list" where
  "fire_all ty v ls = map (\<lambda>l. Fire (snd l) v) (filter (\<lambda>l. fst l = ty) ls)"

text \<open>Modelled from the spec: \<open>item.onload(data)\<close>, the transition to Loaded.\<close>

definition onload :: "jsval \<Rightarrow> MemoryItem \<Rightarrow> MemoryItem \<times> event list" where
  "onload v item =
     (item\<lparr>state := Loaded, data := v, listeners := []\<rparr>, fire_all OnLoad v (listeners item))"

text \<open>Modelled from the spec: \<open>item.onerror(data)\<close>, the transition to Error.\<close>

definition onerror :: "jsval \<Rightarrow> MemoryItem \<Rightarrow> MemoryItem \<times> event list" where
  "onerror v item =
     (item\<lparr>state := Error, data := v, listeners := []\<rparr>, fire_all OnError v (listeners item))"

subsection \<open>The module state\<close>

text \<open>
  \<open>_memory\<close> and, in the second version, \<open>_lastAccessTime\<close> are JavaScript \<open>Map\<close>s:
  association lists with distinct keys in insertion order, where \<open>set\<close> of a present key
  keeps its place and \<open>set\<close> of a new key appends (\<open>AList.update\<close>), and \<open>delete\<close>
  takes the key out (\<open>AList.delete\<close>). The first version has the pool and no timestamp map.
  The argument \<open>gl\<close> of \<open>clean\<close> and \<open>remove\<close> is a WebGL context, as the source
  documents it, and one context is used throughout. \<open>gl_textures\<close> are its live textures:
  \<open>gl.isTexture(t)\<close> holds for them, \<open>gl.deleteTexture(t)\<close> takes \<open>t\<close> out.
  \<open>trace\<close> is the list of outside calls made so far, the oldest first.
\<close>

record shared =
  memory :: "(string \<times> MemoryItem) list"
  lastCheckTick :: int
  gl_textures :: "texture list"
  trace :: "event list"

record cache = shared +
  lastAccessTime :: "(string \<times> int) list"

record pooled_cache = shared +
  memoryItemPool :: "MemoryItem list"

definition rememberTime :: int where
  "rememberTime = 2 * 60 * 1000"

definition cleanUpInterval :: int where
  "cleanUpInterval = 30 * 1000"

definition init_fresh :: "texture list \<Rightarrow> cache" where
  "init_fresh ts = \<lparr>memory = [], lastCheckTick = 0, gl_textures = ts, trace = [],
     lastAccessTime = []\<rparr>"

definition init_pool :: "texture list \<Rightarrow> pooled_cache" where
  "init_pool ts = \<lparr>memory = [], lastCheckTick = 0, gl_textures = ts, trace = [],
     memoryItemPool = []\<rparr>"

subsection \<open>The file extension of a key\<close>

text \<open>
  \<open>filename.match(/\.[^\.]+$/)\<close>: the leftmost place where a dot is followed by one or
  more characters that are not dots, up to the end of the string.
\<close>

fun match_ext :: "string \<Rightarrow> string option" where
  "match_ext [] = None"
| "match_ext (c # cs) =
     (if c = CHR ''.'' \<and> cs \<noteq> [] \<and> CHR ''.'' \<notin> set cs then Some (c # cs) else match_ext cs)"

text \<open>
  \<open>toLowerCase\<close> on characters with codes 0 to 255: the letters A to Z and the capital
  letters of Latin-1 (192 to 222 without the multiplication sign 215) move up by 32.
\<close>

definition lower_char :: "char \<Rightarrow> char" where
  "lower_char c =
     (let n = (of_char c :: nat)
      in if (65 \<le> n \<and> n \<le> 90) \<or> (192 \<le> n \<and> n \<le> 222 \<and> n \<noteq> 215) then char_of (n + 32) else c)"

definition toLowerCase :: "string \<Rightarrow> string" where
  "toLowerCase s = map lower_char s"

definition ext_of :: "string \<Rightarrow> string" where
  "ext_of filename = (case match_ext filename of None \<Rightarrow> [] | Some m \<Rightarrow> toLowerCase m)"

subsection \<open>remove: freeing the file\<close>

text \<open>\<open>if (t && gl.isTexture(t)) gl.deleteTexture(t)\<close>\<close>

definition delete_if_texture :: "texture option \<Rightarrow> 'a shared_scheme \<Rightarrow> 'a shared_scheme" where
  "delete_if_texture t s =
     (case t of
        None \<Rightarrow> s
      | Some h \<Rightarrow>
          (let s1 = s\<lparr>trace := trace s @ [IsTexture h]\<rparr>
           in if h \<in> set (gl_textures s1)
              then s1\<lparr>gl_textures := removeAll h (gl_textures s1),
                      trace := trace s1 @ [DeleteTexture h]\<rparr>
              else s1))"

text \<open>The loop over \<open>file.frames\<close>.\<close>

fun delete_frame_textures :: "texture option list \<Rightarrow> 'a shared_scheme \<Rightarrow> 'a shared_scheme" where
  "delete_frame_textures [] s = s"
| "delete_frame_textures (t # ts) s = delete_frame_textures ts (delete_if_texture t s)"

text \<open>\<open>file.match && file.match(/^blob\:/)\<close>: only strings have \<open>match\<close>.\<close>

fun is_blob :: "jsval \<Rightarrow> bool" where
  "is_blob (Str s) = (take 5 s = ''blob:'')"
| "is_blob v = False"

fun url_of :: "jsval \<Rightarrow> string" where
  "url_of (Str s) = s"
| "url_of v = []"

text \<open>The block \<open>if (file) { switch (ext) ... }\<close>, the same in both versions.\<close>

definition free_file :: "string \<Rightarrow> jsval \<Rightarrow> 'a shared_scheme \<Rightarrow> 'a shared_scheme" where
  "free_file ext file s =
     (if truthy file then
        (if ext = ''.spr'' then
           (let s1 = (case frames_of file of
                        Some fs \<Rightarrow> delete_frame_textures fs s
                      | None \<Rightarrow> s)
            in delete_if_texture (texture_of file) s1)
         else if ext = ''.pal'' then delete_if_texture (texture_of file) s
         else if is_blob file then s\<lparr>trace := trace s @ [RevokeObjectURL (url_of file)]\<rparr>
         else s)
      else s)"

text \<open>\<open>remove\<close> of the second version (lines 370-417).\<close>

definition remove_fresh :: "string \<Rightarrow> cache \<Rightarrow> cache" where
  "remove_fresh filename s =
     (case map_of (memory s) filename of
        None \<Rightarrow> s
      | Some item \<Rightarrow>
          (let file = data item;
               ext = ext_of filename;
               s1 = free_file ext file s
           in s1\<lparr>memory := AList.delete filename (memory s1),
                  lastAccessTime := AList.delete filename (lastAccessTime s1)\<rparr>))"

text \<open>
  \<open>remove\<close> of the first version (lines 154-210). For a key that is in the cache it frees
  the file, resets the item, pushes it to the pool, deletes the key from \<open>_memory\<close> and then
  throws at \<open>_lastAccessTime.delete(filename)\<close> (line 209).
\<close>

definition remove_pool :: "string \<Rightarrow> pooled_cache \<Rightarrow> (error + unit) \<times> pooled_cache" where
  "remove_pool filename s =
     (case map_of (memory s) filename of
        None \<Rightarrow> (Inr (), s)
      | Some item \<Rightarrow>
          (let file = data item;
               ext = ext_of filename;
               s1 = free_file ext file s;
               s2 = s1\<lparr>memoryItemPool := memoryItemPool s1 @ [reset item]\<rparr>;
               s3 = s2\<lparr>memory := AList.delete filename (memory s2)\<rparr>
           in (Inl ReferenceError, s3)))"

subsection \<open>exist, search and updateAccessTime\<close>

text \<open>
  \<open>exist\<close> is \<open>_memory.has\<close>. In \<open>search\<close> the regular expression is the predicate
  "\<open>filename.match(regex)\<close> is truthy" on keys; the keys are pushed in the order of the map.
\<close>

definition exist :: "string \<Rightarrow> 'a shared_scheme \<Rightarrow> bool" where
  "exist filename s = (map_of (memory s) filename \<noteq> None)"

definition search :: "(string \<Rightarrow> bool) \<Rightarrow> 'a shared_scheme \<Rightarrow> string list" where
  "search regex s = filter regex (map fst (memory s))"

text \<open>\<open>updateAccessTime\<close>, exported by the second version only.\<close>

definition updateAccessTime :: "string \<Rightarrow> int \<Rightarrow> cache \<Rightarrow> cache" where
  "updateAccessTime filename time s =
     s\<lparr>lastAccessTime := AList.update filename time (lastAccessTime s)\<rparr>"

subsection \<open>get and set\<close>

text \<open>
  The two \<open>addEventListener\<close> calls of \<open>get\<close>; an absent callback is \<open>None\<close>.
\<close>

definition add_listeners ::
  "callback option \<Rightarrow> callback option \<Rightarrow> MemoryItem \<Rightarrow> MemoryItem \<times> event list" where
  "add_listeners onld onerr item =
     (let (item1, ev1) = (case onld of Some cb \<Rightarrow> addEventListener OnLoad cb item | None \<Rightarrow> (item, []));
          (item2, ev2) = (case onerr of Some cb \<Rightarrow> addEventListener OnError cb item1 | None \<Rightarrow> (item1, []))
      in (item2, ev1 @ ev2))"

text \<open>
  The block \<open>if (!item) { ... }\<close> of \<open>get\<close> and \<open>set\<close>. \<open>Array.pop\<close> takes the last
  element of the pool.
\<close>

definition slot_fresh :: "string \<Rightarrow> cache \<Rightarrow> MemoryItem \<times> cache" where
  "slot_fresh filename s =
     (case map_of (memory s) filename of
        Some item \<Rightarrow> (item, s)
      | None \<Rightarrow>
          (let item = new_MemoryItem
           in (item, s\<lparr>memory := AList.update filename item (memory s)\<rparr>)))"

definition slot_pool :: "string \<Rightarrow> pooled_cache \<Rightarrow> MemoryItem \<times> pooled_cache" where
  "slot_pool filename s =
     (case map_of (memory s) filename of
        Some item \<Rightarrow> (item, s)
      | None \<Rightarrow>
          (let (item, s1) =
                 (if memoryItemPool s \<noteq> []
                  then (reset (last (memoryItemPool s)),
                        s\<lparr>memoryItemPool := butlast (memoryItemPool s)\<rparr>)
                  else (new_MemoryItem, s))
           in (item, s1\<lparr>memory := AList.update filename item (memory s1)\<rparr>)))"

text \<open>
  An item is an object held by the map: what \<open>addEventListener\<close>, \<open>onload\<close> and
  \<open>onerror\<close> change in it is written back under its key. \<open>get\<close> of the second version
  (lines 293-311) returns \<open>item.data\<close> and does not write a timestamp.
\<close>

definition get_fresh ::
  "string \<Rightarrow> callback option \<Rightarrow> callback option \<Rightarrow> cache \<Rightarrow> jsval \<times> cache" where
  "get_fresh filename onld onerr s =
     (let (item, s1) = slot_fresh filename s;
          (item1, ev) = add_listeners onld onerr item;
          s2 = s1\<lparr>memory := AList.update filename item1 (memory s1), trace := trace s1 @ ev\<rparr>
      in (data item1, s2))"

text \<open>
  \<open>get\<close> of the first version (lines 59-85). After the slot and the listeners it reads
  \<open>item.data\<close> and then throws at \<open>_lastAccessTime.set(filename, Date.now())\<close> (line 82):
  the identifier is read before \<open>Date.now()\<close> is called, and \<open>return data\<close> is not
  reached.
\<close>

definition get_pool ::
  "string \<Rightarrow> callback option \<Rightarrow> callback option \<Rightarrow> pooled_cache \<Rightarrow> (error + jsval) \<times> pooled_cache" where
  "get_pool filename onld onerr s =
     (let (item, s1) = slot_pool filename s;
          (item1, ev) = add_listeners onld onerr item;
          s2 = s1\<lparr>memory := AList.update filename item1 (memory s1), trace := trace s1 @ ev\<rparr>
      in (Inl ReferenceError, s2))"

text \<open>\<open>item[hasError ? 'onerror' : 'onload'](data)\<close>; \<open>error\<close> is the truth value of the third argument.\<close>

definition resolve :: "jsval \<Rightarrow> bool \<Rightarrow> MemoryItem \<Rightarrow> MemoryItem \<times> event list" where
  "resolve d error item =
     (let hasError = (error \<or> \<not> truthy d)
      in if hasError then onerror d item else onload d item)"

definition set_fresh :: "string \<Rightarrow> jsval \<Rightarrow> bool \<Rightarrow> cache \<Rightarrow> cache" where
  "set_fresh filename d error s =
     (let (item, s1) = slot_fresh filename s;
          (item1, ev) = resolve d error item
      in s1\<lparr>memory := AList.update filename item1 (memory s1), trace := trace s1 @ ev\<rparr>)"

definition set_pool :: "string \<Rightarrow> jsval \<Rightarrow> bool \<Rightarrow> pooled_cache \<Rightarrow> pooled_cache" where
  "set_pool filename d error s =
     (let (item, s1) = slot_pool filename s;
          (item1, ev) = resolve d error item
      in s1\<lparr>memory := AList.update filename item1 (memory s1), trace := trace s1 @ ev\<rparr>)"

subsection \<open>clean\<close>

text \<open>
  The second version (lines 348-362). \<open>_lastAccessTime.get(filename) < tick\<close>: for a key
  without a timestamp the left side is \<open>undefined\<close> and the comparison is false.
\<close>

definition older :: "int option \<Rightarrow> int \<Rightarrow> bool" where
  "older t tick = (case t of None \<Rightarrow> False | Some v \<Rightarrow> v < tick)"

text \<open>
  The second version removes inside the loop over \<open>_memory\<close>. A \<open>Map\<close> iterator walks
  the entries in insertion order and reads the map as it is when it gets to an entry: an
  entry deleted before the iterator reaches it is not visited, deleting the entry the
  iterator is at does not move it, and \<open>remove\<close> adds no entry. The second argument is the
  list of keys the iterator has still to reach; the item is read from the map as it is then.
\<close>

fun clean_loop_fresh :: "int \<Rightarrow> string list \<Rightarrow> cache \<Rightarrow> cache" where
  "clean_loop_fresh tick [] s = s"
| "clean_loop_fresh tick (filename # rest) s =
     (case map_of (memory s) filename of
        None \<Rightarrow> clean_loop_fresh tick rest s
      | Some item \<Rightarrow>
          clean_loop_fresh tick rest
            (if complete item \<and> older (map_of (lastAccessTime s) filename) tick
             then remove_fresh filename s else s))"

definition clean_fresh :: "int \<Rightarrow> cache \<Rightarrow> cache" where
  "clean_fresh now s =
     (if lastCheckTick s + cleanUpInterval > now then s
      else
        (let tick = now - rememberTime;
             s1 = clean_loop_fresh tick (map fst (memory s)) s
         in s1\<lparr>lastCheckTick := now\<rparr>))"

text \<open>
  The first version (lines 127-146). In the first loop the test is
  \<open>item.complete && _lastAccessTime.get(filename) < tick\<close>: for an item that is not
  complete the right side is not evaluated, for the first complete item reading
  \<open>_lastAccessTime\<close> throws (line 136), before any key is pushed. So the loop ends with the
  empty list or throws.
\<close>

fun keysToDelete :: "(string \<times> MemoryItem) list \<Rightarrow> string list \<Rightarrow> error + string list" where
  "keysToDelete [] acc = Inr acc"
| "keysToDelete ((filename, item) # rest) acc =
     (if complete item then Inl ReferenceError else keysToDelete rest acc)"

text \<open>The second loop; a \<open>remove\<close> that throws ends it.\<close>

fun remove_keys_pool :: "string list \<Rightarrow> pooled_cache \<Rightarrow> (error + unit) \<times> pooled_cache" where
  "remove_keys_pool [] s = (Inr (), s)"
| "remove_keys_pool (k # ks) s =
     (case remove_pool k s of
        (Inl e, s1) \<Rightarrow> (Inl e, s1)
      | (Inr u, s1) \<Rightarrow> remove_keys_pool ks s1)"

text \<open>\<open>_lastCheckTick = now\<close> (line 145) is reached only when nothing has thrown.\<close>

definition clean_pool :: "int \<Rightarrow> pooled_cache \<Rightarrow> (error + unit) \<times> pooled_cache" where
  "clean_pool now s =
     (if lastCheckTick s + cleanUpInterval > now then (Inr (), s)
      else
        (case keysToDelete (memory s) [] of
           Inl e \<Rightarrow> (Inl e, s)
         | Inr keys \<Rightarrow>
             (case remove_keys_pool keys s of
                (Inl e, s1) \<Rightarrow> (Inl e, s1)
              | (Inr u, s1) \<Rightarrow> (Inr (), s1\<lparr>lastCheckTick := now\<rparr>))))"

subsection \<open>Sequences of calls\<close>

text \<open>
  A call that throws gives the result \<open>Threw\<close>; the module state it leaves is the one the
  next call finds. The number of \<open>OpGet\<close> is the clock value at the call; \<open>get\<close> itself
  does not use it in either version.
\<close>

datatype op =
    OpGet string "callback option" "callback option" int
  | OpSet string jsval bool
  | OpExist string
  | OpRemove string
  | OpClean int
  | OpSearch "string \<Rightarrow> bool"

datatype result = RetData jsval | RetBool bool | RetKeys "string list" | RetVoid | Threw error

fun void_result :: "error + unit \<Rightarrow> result" where
  "void_result (Inl e) = Threw e"
| "void_result (Inr u) = RetVoid"

fun data_result :: "error + jsval \<Rightarrow> result" where
  "data_result (Inl e) = Threw e"
| "data_result (Inr d) = RetData d"

fun step_pool :: "op \<Rightarrow> pooled_cache \<Rightarrow> result \<times> pooled_cache" where
  "step_pool (OpGet k onld onerr t) s = (let (r, s1) = get_pool k onld onerr s in (data_result r, s1))"
| "step_pool (OpSet k d e) s = (RetVoid, set_pool k d e s)"
| "step_pool (OpExist k) s = (RetBool (exist k s), s)"
| "step_pool (OpRemove k) s = (let (r, s1) = remove_pool k s in (void_result r, s1))"
| "step_pool (OpClean now) s = (let (r, s1) = clean_pool now s in (void_result r, s1))"
| "step_pool (OpSearch regex) s = (RetKeys (search regex s), s)"

fun step_fresh :: "op \<Rightarrow> cache \<Rightarrow> result \<times> cache" where
  "step_fresh (OpGet k onld onerr t) s = (let (d, s1) = get_fresh k onld onerr s in (RetData d, s1))"
| "step_fresh (OpSet k d e) s = (RetVoid, set_fresh k d e s)"
| "step_fresh (OpExist k) s = (RetBool (exist k s), s)"
| "step_fresh (OpRemove k) s = (RetVoid, remove_fresh k s)"
| "step_fresh (OpClean now) s = (RetVoid, clean_fresh now s)"
| "step_fresh (OpSearch regex) s = (RetKeys (search regex s), s)"

fun run_pool :: "op list \<Rightarrow> pooled_cache \<Rightarrow> result list \<times> pooled_cache" where
  "run_pool [] s = ([], s)"
| "run_pool (x # xs) s =
     (let (r, s1) = step_pool x s; (rs, s2) = run_pool xs s1 in (r # rs, s2))"

fun run_fresh :: "op list \<Rightarrow> cache \<Rightarrow> result list \<times> cache" where
  "run_fresh [] s = ([], s)"
| "run_fresh (x # xs) s =
     (let (r, s1) = step_fresh x s; (rs, s2) = run_fresh xs s1 in (r # rs, s2))"

text \<open>
  The second version with the timestamp written by the caller: every \<open>get\<close> is followed
  by \<open>updateAccessTime\<close> of the same key with the clock value.
\<close>

fun step_fresh_touch :: "op \<Rightarrow> cache \<Rightarrow> result \<times> cache" where
  "step_fresh_touch (OpGet k onld onerr t) s =
     (let (d, s1) = get_fresh k onld onerr s in (RetData d, updateAccessTime k t s1))"
| "step_fresh_touch x s = step_fresh x s"

fun run_fresh_touch :: "op list \<Rightarrow> cache \<Rightarrow> result list \<times> cache" where
  "run_fresh_touch [] s = ([], s)"
| "run_fresh_touch (x # xs) s =
     (let (r, s1) = step_fresh_touch x s; (rs, s2) = run_fresh_touch xs s1 in (r # rs, s2))"

text \<open>Every \<open>set\<close> of the sequence names a key that is in the cache when it is called.\<close>

fun sets_follow_gets :: "op list \<Rightarrow> cache \<Rightarrow> bool" where
  "sets_follow_gets [] s = True"
| "sets_follow_gets (OpSet k d e # xs) s =
     (exist k s \<and> sets_follow_gets xs (snd (step_fresh_touch (OpSet k d e) s)))"
| "sets_follow_gets (x # xs) s = sets_follow_gets xs (snd (step_fresh_touch x s))"

subsection \<open>The words of the specification\<close>

text \<open>
  The discriminator as the spec puts it: the substring from the last dot to the end, in
  lower case, and the empty string for a key without a dot.
\<close>

definition discriminator_spec :: "string \<Rightarrow> string" where
  "discriminator_spec key =
     (if CHR ''.'' \<in> set key
      then toLowerCase (CHR ''.'' # rev (takeWhile (\<lambda>c. c \<noteq> CHR ''.'') (rev key)))
      else [])"

text \<open>
  Eligibility as the spec puts it: the entry is Loaded or Error and
  \<open>lastAccess(key) \<le> now - rememberWindow\<close>, the window being \<open>2 * 60 * 1000\<close>.
\<close>

definition eligible_spec :: "int \<Rightarrow> cache \<Rightarrow> string \<Rightarrow> bool" where
  "eligible_spec now s k =
     (case map_of (memory s) k of
        None \<Rightarrow> False
      | Some item \<Rightarrow>
          (state item = Loaded \<or> state item = Error) \<and>
          (case map_of (lastAccessTime s) k of
             None \<Rightarrow> False
           | Some t \<Rightarrow> t \<le> now - 2 * 60 * 1000))"

text \<open>
  Eligibility with the strict comparison: the entry is Loaded or Error and the key has a
  timestamp that is before \<open>now - 2 * 60 * 1000\<close>, read from the state at the start of the
  pass.
\<close>

definition eligible :: "int \<Rightarrow> cache \<Rightarrow> string \<Rightarrow> bool" where
  "eligible now s k =
     (case map_of (memory s) k of
        None \<Rightarrow> False
      | Some item \<Rightarrow>
          (state item = Loaded \<or> state item = Error) \<and>
          (case map_of (lastAccessTime s) k of
             None \<Rightarrow> False
           | Some t \<Rightarrow> t < now - 2 * 60 * 1000))"

definition eligible_keys :: "int \<Rightarrow> cache \<Rightarrow> string list" where
  "eligible_keys now s = filter (eligible now s) (map fst (memory s))"

text \<open>The listeners that wait on a key.\<close>

definition waiting :: "string \<Rightarrow> 'a shared_scheme \<Rightarrow> (event_type \<times> callback) list" where
  "waiting k s = (case map_of (memory s) k of None \<Rightarrow> [] | Some item \<Rightarrow> listeners item)"

subsection \<open>The scenarios of the specification\<close>

text \<open>
  A sprite with two frame textures and its own texture, requested at clock value 0 with two
  listeners and loaded; a palette that is requested with two listeners and still pending.
\<close>

definition sprite :: jsval where
  "sprite = Obj (Some [Some 10, None, Some 11]) (Some 12)"

definition loaded_sprite :: "op list" where
  "loaded_sprite = [OpGet ''a.spr'' (Some 1) (Some 2) 0, OpSet ''a.spr'' sprite False]"

definition pending_palette :: "op list" where
  "pending_palette = [OpGet ''b.pal'' (Some 3) (Some 4) 0]"

section \<open>Properties\<close>

lemma delete_if_texture_maps [simp]:
  "memory (delete_if_texture t s) = memory s"
  "lastCheckTick (delete_if_texture t s) = lastCheckTick s"
  by (simp_all add: delete_if_texture_def Let_def split: option.splits)

lemma delete_frame_textures_maps [simp]:
  "memory (delete_frame_textures ts s) = memory s"
  "lastCheckTick (delete_frame_textures ts s) = lastCheckTick s"
  by (induction ts arbitrary: s) simp_all

lemma free_file_maps [simp]:
  "memory (free_file ext file s) = memory s"
  "lastCheckTick (free_file ext file s) = lastCheckTick s"
  by (simp_all add: free_file_def Let_def split: option.splits)

lemma free_file_lastAccessTime [simp]:
  "lastAccessTime (delete_if_texture t s) = lastAccessTime s"
  "lastAccessTime (delete_frame_textures ts s) = lastAccessTime s"
  "lastAccessTime (free_file ext file s) = lastAccessTime s"
proof -
  show a: "\<And>t s. lastAccessTime (delete_if_texture t s) = lastAccessTime s"
    by (simp add: delete_if_texture_def Let_def split: option.splits)
  show b: "\<And>ts s. lastAccessTime (delete_frame_textures ts s) = lastAccessTime s"
    subgoal for ts s by (induction ts arbitrary: s) (simp_all add: a)
    done
  show "lastAccessTime (free_file ext file s) = lastAccessTime s"
    by (simp add: free_file_def Let_def a b split: option.splits)
qed

lemma free_file_pool [simp]:
  "memoryItemPool (delete_if_texture t p) = memoryItemPool p"
  "memoryItemPool (delete_frame_textures ts p) = memoryItemPool p"
  "memoryItemPool (free_file ext file p) = memoryItemPool p"
proof -
  show a: "\<And>t p. memoryItemPool (delete_if_texture t p) = memoryItemPool p"
    by (simp add: delete_if_texture_def Let_def split: option.splits)
  show b: "\<And>ts p. memoryItemPool (delete_frame_textures ts p) = memoryItemPool p"
    subgoal for ts p by (induction ts arbitrary: p) (simp_all add: a)
    done
  show "memoryItemPool (free_file ext file p) = memoryItemPool p"
    by (simp add: free_file_def Let_def a b split: option.splits)
qed

lemma free_file_falsy [simp]: "\<not> truthy file \<Longrightarrow> free_file ext file s = s"
  by (simp add: free_file_def)

lemma delete_if_texture_None [simp]: "delete_if_texture None s = s"
  by (simp add: delete_if_texture_def)

lemma reset_new [simp]: "reset item = new_MemoryItem"
  by (simp add: reset_def new_MemoryItem_def)

lemma slot_lastAccessTime [simp]:
  "lastAccessTime (snd (slot_fresh k s)) = lastAccessTime s"
  by (simp add: slot_fresh_def Let_def split: option.splits)

lemma slot_trace [simp]:
  "trace (snd (slot_fresh k s)) = trace s"
  "trace (snd (slot_pool k p)) = trace p"
  by (simp_all add: slot_fresh_def slot_pool_def Let_def split: option.splits)

lemma slot_listeners:
  "listeners (fst (slot_fresh k s)) = waiting k s"
  "listeners (fst (slot_pool k p)) = waiting k p"
  by (simp_all add: slot_fresh_def slot_pool_def waiting_def Let_def new_MemoryItem_def
      split: option.splits)

lemma resolve_eq:
  "resolve d e item =
     (item\<lparr>state := (if e \<or> \<not> truthy d then Error else Loaded), data := d, listeners := []\<rparr>,
      fire_all (if e \<or> \<not> truthy d then OnError else OnLoad) d (listeners item))"
  by (simp add: resolve_def onerror_def onload_def Let_def)

subsection \<open>The scenarios, evaluated\<close>

lemmas eval_defs = init_fresh_def init_pool_def get_fresh_def get_pool_def set_fresh_def
  set_pool_def slot_fresh_def slot_pool_def add_listeners_def addEventListener_def
  new_MemoryItem_def complete_def resolve_def onload_def onerror_def fire_all_def
  updateAccessTime_def Let_def

lemma pending_palette_fresh:
  "run_fresh pending_palette (init_fresh ts) =
     ([RetData Falsy],
      \<lparr>memory = [(''b.pal'', \<lparr>state = Pending, data = Falsy, listeners = [(OnLoad, 3), (OnError, 4)]\<rparr>)],
       lastCheckTick = 0, gl_textures = ts, trace = [], lastAccessTime = []\<rparr>)"
  by (simp add: pending_palette_def eval_defs)

lemma pending_palette_touch:
  "run_fresh_touch pending_palette (init_fresh ts) =
     ([RetData Falsy],
      \<lparr>memory = [(''b.pal'', \<lparr>state = Pending, data = Falsy, listeners = [(OnLoad, 3), (OnError, 4)]\<rparr>)],
       lastCheckTick = 0, gl_textures = ts, trace = [], lastAccessTime = [(''b.pal'', 0)]\<rparr>)"
  by (simp add: pending_palette_def eval_defs)

lemma pending_palette_pool:
  "run_pool pending_palette (init_pool ts) =
     ([Threw ReferenceError],
      \<lparr>memory = [(''b.pal'', \<lparr>state = Pending, data = Falsy, listeners = [(OnLoad, 3), (OnError, 4)]\<rparr>)],
       lastCheckTick = 0, gl_textures = ts, trace = [], memoryItemPool = []\<rparr>)"
  by (simp add: pending_palette_def eval_defs)

lemma loaded_sprite_fresh:
  "run_fresh_touch loaded_sprite (init_fresh ts) =
     ([RetData Falsy, RetVoid],
      \<lparr>memory = [(''a.spr'', \<lparr>state = Loaded, data = sprite, listeners = []\<rparr>)],
       lastCheckTick = 0, gl_textures = ts, trace = [Fire 1 sprite],
       lastAccessTime = [(''a.spr'', 0)]\<rparr>)"
  by (simp add: loaded_sprite_def eval_defs sprite_def)

lemma loaded_sprite_pool:
  "run_pool loaded_sprite (init_pool ts) =
     ([Threw ReferenceError, RetVoid],
      \<lparr>memory = [(''a.spr'', \<lparr>state = Loaded, data = sprite, listeners = []\<rparr>)],
       lastCheckTick = 0, gl_textures = ts, trace = [Fire 1 sprite], memoryItemPool = []\<rparr>)"
  by (simp add: loaded_sprite_def eval_defs sprite_def)

lemma two_entries_fresh:
  "run_fresh_touch (loaded_sprite @ pending_palette) (init_fresh ts) =
     ([RetData Falsy, RetVoid, RetData Falsy],
      \<lparr>memory = [(''a.spr'', \<lparr>state = Loaded, data = sprite, listeners = []\<rparr>),
                 (''b.pal'', \<lparr>state = Pending, data = Falsy, listeners = [(OnLoad, 3), (OnError, 4)]\<rparr>)],
       lastCheckTick = 0, gl_textures = ts, trace = [Fire 1 sprite],
       lastAccessTime = [(''a.spr'', 0), (''b.pal'', 0)]\<rparr>)"
  by (simp add: loaded_sprite_def pending_palette_def eval_defs sprite_def)

subsection \<open>The extension is the suffix after the last dot\<close>

lemma match_ext_eq:
  "match_ext s =
     (if CHR ''.'' \<in> set s \<and> last s \<noteq> CHR ''.''
      then Some (CHR ''.'' # rev (takeWhile (\<lambda>c. c \<noteq> CHR ''.'') (rev s))) else None)"
proof (induction s)
  case Nil
  show ?case by simp
next
  case (Cons c cs)
  show ?case
  proof (cases "c = CHR ''.'' \<and> cs \<noteq> [] \<and> CHR ''.'' \<notin> set cs")
    case True
    then have "\<And>x. x \<in> set (rev cs) \<Longrightarrow> x \<noteq> CHR ''.''" by auto
    then have "takeWhile (\<lambda>c. c \<noteq> CHR ''.'') (rev cs @ [c]) = rev cs"
      using True by (simp del: set_rev)
    moreover from True have "last cs \<noteq> CHR ''.''"
      using last_in_set by metis
    ultimately show ?thesis using True by simp
  next
    case False
    show ?thesis
    proof (cases "CHR ''.'' \<in> set cs")
      case True
      then have "takeWhile (\<lambda>c. c \<noteq> CHR ''.'') (rev cs @ [c]) =
          takeWhile (\<lambda>c. c \<noteq> CHR ''.'') (rev cs)"
        by simp
      moreover from True have "cs \<noteq> []" by auto
      ultimately show ?thesis using True False Cons.IH by simp
    next
      case nodot: False
      with False have "cs = [] \<or> c \<noteq> CHR ''.''" by auto
      then show ?thesis using nodot False Cons.IH by auto
    qed
  qed
qed

lemma ext_of_spec:
  "ext_of key = (if key \<noteq> [] \<and> last key = CHR ''.'' then [] else discriminator_spec key)"
  by (auto simp: ext_of_def discriminator_spec_def match_ext_eq)

lemma ext_of_examples:
  "ext_of ''c.DAT'' = ''.dat''" "ext_of ''b.pal'' = ''.pal''" "ext_of ''a.spr'' = ''.spr''"
  "ext_of ''nodot'' = []" "ext_of ''a.'' = []"
  by code_simp+

subsection \<open>The loop of clean in the second version\<close>

lemma remove_memory [simp]:
  "memory (remove_fresh k s) = AList.delete k (memory s)"
  by (simp add: remove_fresh_def Let_def map_of_eq_None_iff split: option.splits)

lemma remove_lastAccessTime:
  "lastAccessTime (remove_fresh k s) =
     (if exist k s then AList.delete k (lastAccessTime s) else lastAccessTime s)"
  by (simp add: remove_fresh_def exist_def Let_def split: option.splits)

lemma remove_lastCheckTick [simp]:
  "lastCheckTick (remove_fresh k s) = lastCheckTick s"
  by (simp add: remove_fresh_def Let_def split: option.splits)

lemma remove_lastAccessTime_other:
  "k' \<noteq> k \<Longrightarrow> map_of (lastAccessTime (remove_fresh k s)) k' = map_of (lastAccessTime s) k'"
  by (simp add: remove_lastAccessTime)

text \<open>
  The test of the loop, \<open>item.complete && _lastAccessTime.get(filename) < tick\<close> with
  \<open>tick = now - _rememberTime\<close>, is eligibility with the strict comparison.
\<close>

lemma loop_test_eligible:
  "map_of (memory s) k = Some item \<Longrightarrow>
   (complete item \<and> older (map_of (lastAccessTime s) k) (now - rememberTime)) = eligible now s k"
  by (cases "state item")
     (simp_all add: eligible_def complete_def older_def rememberTime_def split: option.splits)

lemma eligible_absent: "map_of (memory s) k = None \<Longrightarrow> \<not> eligible now s k"
  by (simp add: eligible_def)

lemma eligible_remove:
  "k' \<noteq> k \<Longrightarrow> eligible now (remove_fresh k s) k' = eligible now s k'"
  by (simp add: eligible_def remove_lastAccessTime_other split: option.splits)

lemma clean_loop_fresh_fold:
  "distinct ks \<Longrightarrow>
   clean_loop_fresh (now - rememberTime) ks s = fold remove_fresh (filter (eligible now s) ks) s"
proof (induction ks arbitrary: s)
  case Nil
  show ?case by simp
next
  case (Cons k ks)
  then have nk: "k \<notin> set ks" and d: "distinct ks" by simp_all
  show ?case
  proof (cases "eligible now s k")
    case True
    then obtain item where i: "map_of (memory s) k = Some item"
      by (auto simp: eligible_def split: option.splits)
    have step: "clean_loop_fresh (now - rememberTime) (k # ks) s =
        clean_loop_fresh (now - rememberTime) ks (remove_fresh k s)"
      using i True loop_test_eligible [OF i, of now] by simp
    have "\<And>x. x \<in> set ks \<Longrightarrow> x \<noteq> k" using nk by auto
    then have f: "filter (eligible now (remove_fresh k s)) ks = filter (eligible now s) ks"
      by (intro filter_cong) (simp_all add: eligible_remove)
    show ?thesis
      unfolding step Cons.IH [OF d] f using True by simp
  next
    case False
    have step: "clean_loop_fresh (now - rememberTime) (k # ks) s =
        clean_loop_fresh (now - rememberTime) ks s"
    proof (cases "map_of (memory s) k")
      case None
      then show ?thesis by simp
    next
      case (Some item)
      with False loop_test_eligible [OF Some, of now]
      have "\<not> (complete item \<and> older (map_of (lastAccessTime s) k) (now - rememberTime))"
        by simp
      then show ?thesis using Some by auto
    qed
    show ?thesis
      unfolding step Cons.IH [OF d] using False by simp
  qed
qed

lemma clean_fresh_fold:
  "distinct (map fst (memory s)) \<Longrightarrow> lastCheckTick s + cleanUpInterval \<le> now \<Longrightarrow>
   clean_fresh now s = (fold remove_fresh (eligible_keys now s) s)\<lparr>lastCheckTick := now\<rparr>"
  by (simp add: clean_fresh_def clean_loop_fresh_fold eligible_keys_def Let_def)

lemma fold_remove_keys:
  "map fst (memory (fold remove_fresh ks s)) = filter (\<lambda>k. k \<notin> set ks) (map fst (memory s))"
proof -
  have a: "\<And>k m. map fst (AList.delete k m) = filter (\<lambda>k'. k' \<noteq> k) (map fst m)"
    by (simp add: AList.delete_keys removeAll_filter_not_eq) metis
  show ?thesis
    by (induction ks arbitrary: s) (auto simp: a intro: filter_cong)
qed

lemma exist_keys: "exist k s \<longleftrightarrow> k \<in> set (map fst (memory s))"
  by (simp add: exist_def map_of_eq_None_iff)

lemma eligible_keys_props:
  "distinct (map fst (memory s)) \<Longrightarrow> distinct (eligible_keys now s)"
  "set (eligible_keys now s) = {k. eligible now s k}"
  by (auto simp: eligible_keys_def eligible_def map_of_eq_None_iff split: option.splits)

lemma nth_notin_take: "distinct ks \<Longrightarrow> i < length ks \<Longrightarrow> ks ! i \<notin> set (take i ks)"
  by (auto simp: in_set_conv_nth nth_eq_iff_index_eq)

lemma present_when_removed:
  assumes "distinct ks" and "set ks \<subseteq> set (map fst (memory s))" and "i < length ks"
  shows "exist (ks ! i) (fold remove_fresh (take i ks) s)"
proof -
  have "ks ! i \<in> set (map fst (memory s))" using assms(2,3) by auto
  with nth_notin_take [OF assms(1,3)] show ?thesis
    by (simp add: exist_keys fold_remove_keys del: set_map)
qed

lemma eligible_keys_subset: "set (eligible_keys now s) \<subseteq> set (map fst (memory s))"
  by (auto simp: eligible_keys_def)

lemma clean_keys:
  "distinct (map fst (memory s)) \<Longrightarrow> lastCheckTick s + cleanUpInterval \<le> now \<Longrightarrow>
   map fst (memory (clean_fresh now s)) = filter (\<lambda>k. \<not> eligible now s k) (map fst (memory s))"
  by (simp add: clean_fresh_fold fold_remove_keys eligible_keys_props)

text \<open>The keys of the store are distinct in every state that the second version gets to.\<close>

lemma slot_memory:
  "memory (snd (slot_fresh k s)) =
     (if exist k s then memory s else AList.update k new_MemoryItem (memory s))"
  by (simp add: slot_fresh_def exist_def Let_def split: option.splits)

lemma distinct_clean_fresh:
  "distinct (map fst (memory s)) \<Longrightarrow> distinct (map fst (memory (clean_fresh now s)))"
  by (cases "lastCheckTick s + cleanUpInterval \<le> now")
     (simp_all add: clean_keys, simp add: clean_fresh_def)

lemma distinct_step_fresh_touch:
  assumes "distinct (map fst (memory s))"
  shows "distinct (map fst (memory (snd (step_fresh_touch x s))))"
  using assms
  by (cases x)
     (simp_all add: split_beta get_fresh_def set_fresh_def updateAccessTime_def Let_def slot_memory
        AList.distinct_update AList.distinct_delete distinct_clean_fresh)

lemma distinct_step_fresh:
  assumes "distinct (map fst (memory s))"
  shows "distinct (map fst (memory (snd (step_fresh x s))))"
  using assms
  by (cases x)
     (simp_all add: split_beta get_fresh_def set_fresh_def Let_def slot_memory
        AList.distinct_update AList.distinct_delete distinct_clean_fresh)

lemma distinct_run_fresh:
  "distinct (map fst (memory s)) \<Longrightarrow> distinct (map fst (memory (snd (run_fresh xs s))))"
  by (induction xs arbitrary: s) (simp_all add: split_beta distinct_step_fresh)

lemma distinct_run_fresh_touch:
  "distinct (map fst (memory s)) \<Longrightarrow> distinct (map fst (memory (snd (run_fresh_touch xs s))))"
  by (induction xs arbitrary: s) (simp_all add: split_beta distinct_step_fresh_touch)

subsection \<open>Who writes a timestamp in the second version\<close>

lemma remove_fresh_no_write:
  "map_of (lastAccessTime (remove_fresh k s)) k' = Some t \<Longrightarrow> map_of (lastAccessTime s) k' = Some t"
  by (cases "k' = k") (simp_all add: remove_lastAccessTime AList.delete_conv' split: if_splits)

lemma clean_loop_fresh_no_write:
  "map_of (lastAccessTime (clean_loop_fresh tick ks s)) k' = Some t \<Longrightarrow>
   map_of (lastAccessTime s) k' = Some t"
proof (induction ks arbitrary: s)
  case Nil
  then show ?case by simp
next
  case (Cons k ks)
  show ?case
  proof (cases "map_of (memory s) k")
    case None
    with Cons show ?thesis by simp
  next
    case (Some item)
    show ?thesis
    proof (cases "complete item \<and> older (map_of (lastAccessTime s) k) tick")
      case True
      with Cons.prems Some
      have "map_of (lastAccessTime (clean_loop_fresh tick ks (remove_fresh k s))) k' = Some t"
        by simp
      then show ?thesis using Cons.IH remove_fresh_no_write by blast
    next
      case False
      with Cons.prems Some
      have "map_of (lastAccessTime (clean_loop_fresh tick ks s)) k' = Some t"
        by auto
      then show ?thesis using Cons.IH by blast
    qed
  qed
qed

lemma clean_fresh_no_write:
  "map_of (lastAccessTime (clean_fresh now s)) k' = Some t \<Longrightarrow> map_of (lastAccessTime s) k' = Some t"
  by (cases "lastCheckTick s + cleanUpInterval > now")
     (auto simp: clean_fresh_def Let_def dest: clean_loop_fresh_no_write)

lemma get_set_fresh_lastAccessTime [simp]:
  "lastAccessTime (snd (get_fresh k onld onerr s)) = lastAccessTime s"
  "lastAccessTime (set_fresh k d e s) = lastAccessTime s"
  by (simp_all add: get_fresh_def set_fresh_def Let_def split_beta)

lemma step_fresh_no_write:
  "map_of (lastAccessTime (snd (step_fresh x s))) k' = Some t \<Longrightarrow>
   map_of (lastAccessTime s) k' = Some t"
  by (cases x) (auto simp: split_beta dest: remove_fresh_no_write clean_fresh_no_write)

subsection \<open>Keys of the store and keys of the timestamp map in the second version\<close>

lemma slot_fresh_keys:
  "fst ` set (memory (snd (slot_fresh k s))) = insert k (fst ` set (memory s))"
  by (auto simp: slot_memory exist_def AList.dom_update map_of_eq_None_iff)

lemma get_fresh_keys:
  "fst ` set (memory (snd (get_fresh k onld onerr s))) = insert k (fst ` set (memory s))"
  by (simp add: get_fresh_def Let_def split_beta AList.dom_update slot_fresh_keys)

lemma set_fresh_keys:
  "fst ` set (memory (set_fresh k d e s)) = insert k (fst ` set (memory s))"
  by (simp add: set_fresh_def Let_def split_beta AList.dom_update slot_fresh_keys)

lemma delete_keys_set: "fst ` set (AList.delete k al) = fst ` set al - {k}"
  by (auto simp: AList.delete_eq)

lemma timestamped_remove:
  assumes "fst ` set (memory s) \<subseteq> fst ` set (lastAccessTime s)"
  shows "fst ` set (memory (remove_fresh k s)) \<subseteq> fst ` set (lastAccessTime (remove_fresh k s))"
  using assms by (auto simp: remove_lastAccessTime delete_keys_set)

lemma timestamped_clean_loop:
  "fst ` set (memory s) \<subseteq> fst ` set (lastAccessTime s) \<Longrightarrow>
   fst ` set (memory (clean_loop_fresh tick ks s)) \<subseteq>
     fst ` set (lastAccessTime (clean_loop_fresh tick ks s))"
proof (induction ks arbitrary: s)
  case Nil
  then show ?case by simp
next
  case (Cons k ks)
  show ?case
  proof (cases "map_of (memory s) k")
    case None
    then show ?thesis using Cons.IH [OF Cons.prems] by simp
  next
    case (Some item)
    show ?thesis
    proof (cases "complete item \<and> older (map_of (lastAccessTime s) k) tick")
      case True
      then show ?thesis
        using Some Cons.IH [OF timestamped_remove [OF Cons.prems, of k]]
        by (simp del: remove_memory)
    next
      case False
      then show ?thesis using Some Cons.IH [OF Cons.prems] by auto
    qed
  qed
qed

lemma timestamped_clean:
  "fst ` set (memory s) \<subseteq> fst ` set (lastAccessTime s) \<Longrightarrow>
   fst ` set (memory (clean_fresh now s)) \<subseteq> fst ` set (lastAccessTime (clean_fresh now s))"
  by (simp add: clean_fresh_def Let_def timestamped_clean_loop)

lemma timestamped_step:
  assumes "fst ` set (memory s) \<subseteq> fst ` set (lastAccessTime s)"
      and "sets_follow_gets [x] s"
  shows "fst ` set (memory (snd (step_fresh_touch x s))) \<subseteq>
           fst ` set (lastAccessTime (snd (step_fresh_touch x s)))"
proof (cases x)
  case (OpGet k onld onerr t)
  then show ?thesis
    using assms(1) by (auto simp: split_beta get_fresh_keys updateAccessTime_def AList.dom_update)
next
  case (OpSet k d e)
  with assms(2) have "k \<in> fst ` set (memory s)"
    by (simp add: exist_keys)
  then show ?thesis using assms(1) OpSet by (auto simp: set_fresh_keys)
next
  case (OpRemove k)
  then show ?thesis using timestamped_remove [OF assms(1)] by simp
next
  case (OpClean now)
  then show ?thesis using timestamped_clean [OF assms(1)] by simp
qed (use assms(1) in simp_all)

lemma sets_follow_gets_Cons:
  "sets_follow_gets (x # xs) s =
     (sets_follow_gets [x] s \<and> sets_follow_gets xs (snd (step_fresh_touch x s)))"
  by (cases x) simp_all

subsection \<open>Where the first version throws\<close>

lemma get_pool_throws: "fst (get_pool k onld onerr p) = Inl ReferenceError"
  by (simp add: get_pool_def Let_def split_beta)

lemma remove_pool_throws:
  "exist k p \<Longrightarrow> fst (remove_pool k p) = Inl ReferenceError \<and> \<not> exist k (snd (remove_pool k p))"
  by (auto simp: exist_def remove_pool_def Let_def AList.delete_conv')

lemma remove_pool_absent: "\<not> exist k p \<Longrightarrow> remove_pool k p = (Inr (), p)"
  by (simp add: exist_def remove_pool_def)

lemma keysToDelete_throws:
  "keysToDelete m acc = (if \<exists>e \<in> set m. complete (snd e) then Inl ReferenceError else Inr acc)"
  by (induction m acc rule: keysToDelete.induct) auto

lemma clean_pool_throws:
  "lastCheckTick p + cleanUpInterval \<le> now \<Longrightarrow> \<exists>e \<in> set (memory p). complete (snd e) \<Longrightarrow>
   clean_pool now p = (Inl ReferenceError, p)"
  by (simp add: clean_pool_def keysToDelete_throws)

subsection \<open>What the second version does\<close>

lemma remove_fresh_absent_present:
  "(\<not> exist k s \<longrightarrow> remove_fresh k s = s) \<and>
   (exist k s \<longrightarrow> \<not> exist k (remove_fresh k s) \<and>
      map_of (lastAccessTime (remove_fresh k s)) k = None)"
  by (auto simp: exist_def remove_fresh_def Let_def AList.delete_conv' split: option.splits)

lemma remove_fresh_falsy_payload:
  assumes "map_of (memory s) k = Some item" and "\<not> truthy (data item)"
  shows "trace (remove_fresh k s) = trace s \<and> gl_textures (remove_fresh k s) = gl_textures s \<and>
         \<not> exist k (remove_fresh k s) \<and> map_of (lastAccessTime (remove_fresh k s)) k = None"
  using assms
  by (simp add: exist_def remove_fresh_def Let_def AList.delete_conv')

lemma clean_fresh_rate_limit:
  "(now < lastCheckTick s + 30 * 1000 \<longrightarrow> clean_fresh now s = s) \<and>
   (lastCheckTick s + 30 * 1000 \<le> now \<longrightarrow> lastCheckTick (clean_fresh now s) = now) \<and>
   (lastCheckTick s + 30 * 1000 \<le> now \<and> now' < now + 30 * 1000 \<longrightarrow>
      clean_fresh now' (clean_fresh now s) = clean_fresh now s)"
  by (simp add: clean_fresh_def cleanUpInterval_def Let_def)

subsection \<open>remove\<close>

text \<open>
  Claim C7. The first version does not do what the claim says for a key that is in the cache:
  \<open>remove\<close> of the loaded sprite frees its textures, pools the item, deletes the key from
  the store and then throws \<open>ReferenceError\<close> at the deletion of the timestamp, so it does
  not complete. The second version does what the claim says
  (\<open>remove_fresh_absent_present\<close>).
\<close>

theorem remove_pool_throws_at_timestamp:
  "remove_pool ''a.spr'' (set_pool ''a.spr'' sprite False (init_pool [10, 11, 12])) =
     (Inl ReferenceError,
      \<lparr>memory = [], lastCheckTick = 0, gl_textures = [],
       trace = [IsTexture 10, DeleteTexture 10, IsTexture 11, DeleteTexture 11,
                IsTexture 12, DeleteTexture 12],
       memoryItemPool = [new_MemoryItem]\<rparr>)"
  by (simp add: remove_pool_def free_file_def delete_if_texture_def ext_of_examples sprite_def
      eval_defs)

text \<open>
  Claim C10. The first version does not do what the claim says: \<open>remove\<close> of the pending
  palette makes no outside call and deletes the key from the store, and then throws
  \<open>ReferenceError\<close> at the deletion of the timestamp. The second version does what the
  claim says (\<open>remove_fresh_falsy_payload\<close>).
\<close>

theorem remove_pool_falsy_throws:
  "remove_pool ''b.pal'' (snd (run_pool pending_palette (init_pool [10]))) =
     (Inl ReferenceError,
      \<lparr>memory = [], lastCheckTick = 0, gl_textures = [10], trace = [],
       memoryItemPool = [new_MemoryItem]\<rparr>)"
  by (simp add: pending_palette_pool remove_pool_def)

subsection \<open>The extension and the files that are neither sprites nor palettes\<close>

text \<open>
  Claim C8, as amended. In both versions the extension of a key is the lower-cased substring
  from the last dot to the end when the key does not end in a dot, and it is empty for a key
  that ends in a dot as for a key without a dot. \<open>remove\<close> of a key whose extension is
  neither \<open>.spr\<close> nor \<open>.pal\<close> leaves the textures of the context as they are and adds to
  the trace at most one \<open>revokeObjectURL\<close>, for a payload that is a string starting with
  \<open>blob:\<close>: no \<open>isTexture\<close>, no \<open>deleteTexture\<close>, in both versions. In the second
  version that \<open>remove\<close> returns and does not throw.
\<close>

theorem discriminator_and_other_suffix:
  fixes s :: cache and p :: pooled_cache
  shows "ext_of key = (if key \<noteq> [] \<and> last key = CHR ''.'' then [] else discriminator_spec key) \<and>
    (ext_of key \<noteq> ''.spr'' \<and> ext_of key \<noteq> ''.pal'' \<longrightarrow>
       fst (step_fresh (OpRemove key) s) = RetVoid \<and>
       gl_textures (snd (step_fresh (OpRemove key) s)) = gl_textures s \<and>
       trace (snd (step_fresh (OpRemove key) s)) = trace s @
         (case map_of (memory s) key of
            None \<Rightarrow> []
          | Some item \<Rightarrow> if truthy (data item) \<and> is_blob (data item)
                         then [RevokeObjectURL (url_of (data item))] else []) \<and>
       gl_textures (snd (step_pool (OpRemove key) p)) = gl_textures p \<and>
       trace (snd (step_pool (OpRemove key) p)) = trace p @
         (case map_of (memory p) key of
            None \<Rightarrow> []
          | Some item \<Rightarrow> if truthy (data item) \<and> is_blob (data item)
                         then [RevokeObjectURL (url_of (data item))] else []))"
  by (simp add: ext_of_spec [symmetric] remove_fresh_def remove_pool_def free_file_def Let_def
      split: option.splits)

theorem discriminator_and_other_suffix_witness:
  "ext_of ''c.DAT'' = ''.dat'' \<and> discriminator_spec ''c.DAT'' = ''.dat'' \<and>
   ext_of ''b.pal'' = ''.pal'' \<and> ext_of ''nodot'' = [] \<and> ext_of ''a.'' = [] \<and>
   fst (step_fresh (OpRemove ''c.DAT'')
     (set_fresh ''c.DAT'' (Str ''blob:1'') False (init_fresh [10]))) = RetVoid \<and>
   gl_textures (snd (step_fresh (OpRemove ''c.DAT'')
     (set_fresh ''c.DAT'' (Str ''blob:1'') False (init_fresh [10])))) = [10] \<and>
   trace (snd (step_fresh (OpRemove ''c.DAT'')
     (set_fresh ''c.DAT'' (Str ''blob:1'') False (init_fresh [10])))) =
     [RevokeObjectURL ''blob:1''] \<and>
   gl_textures (snd (step_pool (OpRemove ''c.DAT'')
     (set_pool ''c.DAT'' sprite False (init_pool [10])))) = [10] \<and>
   trace (snd (step_pool (OpRemove ''c.DAT'')
     (set_pool ''c.DAT'' sprite False (init_pool [10])))) = []"
proof -
  note e = ext_of_examples
  have h: "ext_of ''c.DAT'' \<noteq> ''.spr'' \<and> ext_of ''c.DAT'' \<noteq> ''.pal''"
    by (simp add: e)
  have m: "map_of (memory (set_fresh ''c.DAT'' (Str ''blob:1'') False (init_fresh [10]))) ''c.DAT'' =
      Some \<lparr>state = Loaded, data = Str ''blob:1'', listeners = []\<rparr>"
     "trace (set_fresh ''c.DAT'' (Str ''blob:1'') False (init_fresh [10])) = []"
     "gl_textures (set_fresh ''c.DAT'' (Str ''blob:1'') False (init_fresh [10])) = [10]"
     "map_of (memory (set_pool ''c.DAT'' sprite False (init_pool [10]))) ''c.DAT'' =
      Some \<lparr>state = Loaded, data = sprite, listeners = []\<rparr>"
     "trace (set_pool ''c.DAT'' sprite False (init_pool [10])) = []"
     "gl_textures (set_pool ''c.DAT'' sprite False (init_pool [10])) = [10]"
    by (simp_all add: eval_defs sprite_def)
  show ?thesis
    using discriminator_and_other_suffix [of "''c.DAT''"
        "set_fresh ''c.DAT'' (Str ''blob:1'') False (init_fresh [10])"
        "set_pool ''c.DAT'' sprite False (init_pool [10])"] h e m
    by (simp add: sprite_def)
qed

text \<open>
  The claim as the spec words it fails for a key that ends in a dot: the regular expression
  asks for a character after the dot, so the extension of \<open>a.\<close> is empty, and the substring
  from the last dot to the end is the dot.
\<close>

theorem trailing_dot_discriminator:
  "ext_of ''a.'' = [] \<and> discriminator_spec ''a.'' = ''.''"
  by (simp add: ext_of_def discriminator_spec_def toLowerCase_def lower_char_def)

subsection \<open>clean: the rate limit\<close>

text \<open>
  Claim C4. The first version does not do what the claim says when a complete entry is in the
  cache: a pass that the rate limit lets through throws \<open>ReferenceError\<close> at the first
  complete entry, before \<open>_lastCheckTick = now\<close>, so \<open>_lastCheckTick\<close> stays 0 and a
  second call 10 seconds later is not stopped by the rate limit and throws again. The second
  version does what the claim says (\<open>clean_fresh_rate_limit\<close>).
\<close>

theorem clean_pool_throws_before_tick:
  "clean_pool 150000 (set_pool ''a.spr'' sprite False (init_pool [10, 11, 12])) =
     (Inl ReferenceError, set_pool ''a.spr'' sprite False (init_pool [10, 11, 12])) \<and>
   lastCheckTick (snd (clean_pool 150000 (set_pool ''a.spr'' sprite False (init_pool [10, 11, 12]))))
     = 0 \<and>
   clean_pool 160000
     (snd (clean_pool 150000 (set_pool ''a.spr'' sprite False (init_pool [10, 11, 12])))) =
     (Inl ReferenceError, set_pool ''a.spr'' sprite False (init_pool [10, 11, 12]))"
  by (simp add: clean_pool_def cleanUpInterval_def eval_defs)

subsection \<open>get and the timestamp\<close>

text \<open>
  Claim C2, as amended. In the second version \<open>get\<close> leaves the timestamp map as it is.
  The timestamp of a key is what \<open>updateAccessTime\<close> has set: none of \<open>get\<close>, \<open>set\<close>,
  \<open>exist\<close>, \<open>remove\<close>, \<open>clean\<close> and \<open>search\<close> gives a key a timestamp that it did not
  have before the call.
\<close>

theorem get_fresh_writes_no_timestamp:
  "lastAccessTime (snd (get_fresh k onld onerr s)) = lastAccessTime s \<and>
   map_of (lastAccessTime (updateAccessTime k t s)) k = Some t \<and>
   (map_of (lastAccessTime (snd (step_fresh x s))) k' = Some t' \<longrightarrow>
      map_of (lastAccessTime s) k' = Some t')"
  using step_fresh_no_write [of x s k' t']
  by (auto simp: updateAccessTime_def AList.update_conv')

theorem get_fresh_writes_no_timestamp_witness:
  "lastAccessTime (snd (get_fresh ''b.pal'' None None
      (snd (run_fresh_touch (loaded_sprite @ pending_palette) (init_fresh [10, 11, 12, 13]))))) =
     [(''a.spr'', 0), (''b.pal'', 0)] \<and>
   map_of (lastAccessTime (updateAccessTime ''b.pal'' 42
      (snd (run_fresh_touch (loaded_sprite @ pending_palette) (init_fresh [10, 11, 12, 13])))))
     ''b.pal'' = Some 42 \<and>
   map_of (lastAccessTime (snd (step_fresh (OpClean 150000)
      (snd (run_fresh_touch (loaded_sprite @ pending_palette) (init_fresh [10, 11, 12, 13]))))))
     ''b.pal'' = Some 0 \<and>
   map_of (lastAccessTime
      (snd (run_fresh_touch (loaded_sprite @ pending_palette) (init_fresh [10, 11, 12, 13]))))
     ''b.pal'' = Some 0"
proof -
  let ?s = "snd (run_fresh_touch (loaded_sprite @ pending_palette) (init_fresh [10, 11, 12, 13]))"
  have a: "map_of (lastAccessTime (snd (step_fresh (OpClean 150000) ?s))) ''b.pal'' = Some 0"
    by (simp add: two_entries_fresh clean_fresh_def cleanUpInterval_def rememberTime_def
        complete_def older_def remove_lastAccessTime exist_def Let_def)
  show ?thesis
    using get_fresh_writes_no_timestamp [of "''b.pal''" None None ?s 42 "OpClean 150000"
        "''b.pal''" 0] a
    by (simp add: two_entries_fresh)
qed

text \<open>
  The claim as stated fails in the second version: after \<open>get\<close> of a new key the key is in
  the cache and has no timestamp.
\<close>

theorem get_fresh_no_timestamp:
  "exist ''a.spr'' (snd (get_fresh ''a.spr'' None None (init_fresh []))) \<and>
   map_of (lastAccessTime (snd (get_fresh ''a.spr'' None None (init_fresh [])))) ''a.spr'' = None"
  by (simp add: exist_def get_fresh_def init_fresh_def slot_fresh_def add_listeners_def Let_def)

subsection \<open>set and the outcome\<close>

text \<open>
  Claim C6. In both versions, after \<open>set(key, data, error)\<close> the entry of the key is in the
  state Error when \<open>error\<close> is truthy or \<open>data\<close> is falsy, and in the state Loaded
  otherwise. In the first case the calls that \<open>set\<close> makes are the error listeners that
  wait on the key, each called with \<open>data\<close>, in the second case the load listeners.
  \<open>set\<close> has no failing branch: the error is seen by the error listeners only.
\<close>

theorem set_outcome:
  fixes s :: cache and p :: pooled_cache
  shows "(\<exists>item. map_of (memory (set_fresh k d e s)) k = Some item \<and>
            state item = (if e \<or> \<not> truthy d then Error else Loaded)) \<and>
         trace (set_fresh k d e s) =
           trace s @ fire_all (if e \<or> \<not> truthy d then OnError else OnLoad) d (waiting k s) \<and>
         (\<exists>item. map_of (memory (set_pool k d e p)) k = Some item \<and>
            state item = (if e \<or> \<not> truthy d then Error else Loaded)) \<and>
         trace (set_pool k d e p) =
           trace p @ fire_all (if e \<or> \<not> truthy d then OnError else OnLoad) d (waiting k p)"
  by (simp add: set_fresh_def set_pool_def Let_def split_beta resolve_eq AList.update_conv'
      slot_listeners)

theorem set_outcome_witness:
  "(\<exists>item. map_of (memory (set_fresh ''b.pal'' Falsy False
        (snd (run_fresh pending_palette (init_fresh []))))) ''b.pal'' = Some item \<and>
      state item = Error) \<and>
   trace (set_fresh ''b.pal'' Falsy False (snd (run_fresh pending_palette (init_fresh [])))) =
     [Fire 4 Falsy] \<and>
   (\<exists>item. map_of (memory (set_pool ''b.pal'' (Str ''x'') False
        (snd (run_pool pending_palette (init_pool []))))) ''b.pal'' = Some item \<and>
      state item = Loaded) \<and>
   trace (set_pool ''b.pal'' (Str ''x'') False (snd (run_pool pending_palette (init_pool [])))) =
     [Fire 3 (Str ''x'')]"
  using set_outcome [of "''b.pal''" Falsy False "snd (run_fresh pending_palette (init_fresh []))"
      "snd (run_pool pending_palette (init_pool []))"]
    set_outcome [of "''b.pal''" "Str ''x''" False "snd (run_fresh pending_palette (init_fresh []))"
      "snd (run_pool pending_palette (init_pool []))"]
  by (simp add: waiting_def pending_palette_fresh pending_palette_pool fire_all_def)

subsection \<open>clean: what a pass evicts\<close>

text \<open>
  Claim C5, as amended. In the second version, a pass that the rate limit lets through on a
  cache with distinct keys is the removal, one after the other and in insertion order, of the
  keys that at the start of the pass have a complete entry and a timestamp strictly before
  \<open>now - 2 * 60 * 1000\<close>. No key is in that list twice, each key of the list is in the
  cache when its \<open>remove\<close> is called, so each \<open>remove\<close> frees the file of its key, and
  the keys left in the cache are the other ones. The version removes while it iterates over
  the map.
\<close>

theorem clean_evicts_eligible_once:
  assumes "distinct (map fst (memory s))" and "lastCheckTick s + 30 * 1000 \<le> now"
  shows "clean_fresh now s = (fold remove_fresh (eligible_keys now s) s)\<lparr>lastCheckTick := now\<rparr> \<and>
         distinct (eligible_keys now s) \<and>
         (\<forall>i < length (eligible_keys now s).
            exist (eligible_keys now s ! i) (fold remove_fresh (take i (eligible_keys now s)) s)) \<and>
         map fst (memory (clean_fresh now s)) =
           filter (\<lambda>k. \<not> eligible now s k) (map fst (memory s))"
proof -
  from assms(2) have t: "lastCheckTick s + cleanUpInterval \<le> now"
    by (simp add: cleanUpInterval_def)
  have ds: "distinct (eligible_keys now s)"
    using assms(1) by (simp add: eligible_keys_props)
  have ps: "\<forall>i < length (eligible_keys now s).
      exist (eligible_keys now s ! i) (fold remove_fresh (take i (eligible_keys now s)) s)"
    using present_when_removed [OF ds eligible_keys_subset] by blast
  note fs = clean_fresh_fold [OF assms(1) t]
  note ks = clean_keys [OF assms(1) t]
  show ?thesis by (intro conjI fs ds ps ks)
qed

theorem clean_evicts_eligible_once_witness:
  "distinct (map fst (memory
     (snd (run_fresh_touch (loaded_sprite @ pending_palette) (init_fresh [10, 11, 12, 13]))))) \<and>
   lastCheckTick (snd (run_fresh_touch (loaded_sprite @ pending_palette)
     (init_fresh [10, 11, 12, 13]))) + 30 * 1000 \<le> 150000 \<and>
   eligible_keys 150000
     (snd (run_fresh_touch (loaded_sprite @ pending_palette) (init_fresh [10, 11, 12, 13]))) =
     [''a.spr''] \<and>
   exist ''a.spr''
     (snd (run_fresh_touch (loaded_sprite @ pending_palette) (init_fresh [10, 11, 12, 13]))) \<and>
   clean_fresh 150000
     (snd (run_fresh_touch (loaded_sprite @ pending_palette) (init_fresh [10, 11, 12, 13]))) =
     \<lparr>memory = [(''b.pal'', \<lparr>state = Pending, data = Falsy,
                   listeners = [(OnLoad, 3), (OnError, 4)]\<rparr>)],
      lastCheckTick = 150000, gl_textures = [13],
      trace = [Fire 1 sprite, IsTexture 10, DeleteTexture 10, IsTexture 11, DeleteTexture 11,
               IsTexture 12, DeleteTexture 12],
      lastAccessTime = [(''b.pal'', 0)]\<rparr>"
proof -
  let ?s = "snd (run_fresh_touch (loaded_sprite @ pending_palette) (init_fresh [10, 11, 12, 13]))"
  have h: "distinct (map fst (memory ?s))" "lastCheckTick ?s + 30 * 1000 \<le> 150000"
    by (simp_all add: two_entries_fresh)
  have e: "eligible_keys 150000 ?s = [''a.spr'']"
    by (simp add: two_entries_fresh eligible_keys_def eligible_def)
  note r = clean_evicts_eligible_once [OF h]
  have x: "exist ''a.spr'' ?s"
    using r unfolding e by simp
  have "clean_fresh 150000 ?s =
      (fold remove_fresh (eligible_keys 150000 ?s) ?s)\<lparr>lastCheckTick := 150000\<rparr>"
    using r by blast
  then have cs: "clean_fresh 150000 ?s =
     \<lparr>memory = [(''b.pal'', \<lparr>state = Pending, data = Falsy,
                   listeners = [(OnLoad, 3), (OnError, 4)]\<rparr>)],
      lastCheckTick = 150000, gl_textures = [13],
      trace = [Fire 1 sprite, IsTexture 10, DeleteTexture 10, IsTexture 11, DeleteTexture 11,
               IsTexture 12, DeleteTexture 12],
      lastAccessTime = [(''b.pal'', 0)]\<rparr>"
    unfolding e by (simp add: two_entries_fresh remove_fresh_def free_file_def delete_if_texture_def
        ext_of_examples sprite_def Let_def)
  show ?thesis by (intro conjI h e x cs)
qed

text \<open>
  With the eligibility of the spec, \<open>lastAccess \<le> now - rememberWindow\<close>, the claim fails:
  the loaded sprite that was last used at 0 is eligible at 120000, the pass at 120000 is not
  stopped by the rate limit, and the sprite is still in the cache after it.
\<close>

theorem spec_eligible_key_stays:
  "eligible_spec 120000 (snd (run_fresh_touch loaded_sprite (init_fresh [10, 11, 12]))) ''a.spr'' \<and>
   lastCheckTick (snd (run_fresh_touch loaded_sprite (init_fresh [10, 11, 12]))) + 30 * 1000
     \<le> 120000 \<and>
   map fst (memory (clean_fresh 120000
     (snd (run_fresh_touch loaded_sprite (init_fresh [10, 11, 12]))))) = [''a.spr'']"
  by (simp add: loaded_sprite_fresh eligible_spec_def clean_fresh_def older_def complete_def
      rememberTime_def cleanUpInterval_def)

text \<open>
  Claim C1, as amended. In the second version, for a key that is in the cache, a pass that the
  rate limit lets through evicts the key exactly when its entry is Loaded or Error and the key
  has a timestamp that is strictly before \<open>now - 2 * 60 * 1000\<close>.
\<close>

theorem clean_evicts_iff:
  assumes "distinct (map fst (memory s))" and "lastCheckTick s + 30 * 1000 \<le> now"
      and "exist k s"
  shows "(\<not> exist k (clean_fresh now s)) =
           (\<exists>item t. map_of (memory s) k = Some item \<and>
              (state item = Loaded \<or> state item = Error) \<and>
              map_of (lastAccessTime s) k = Some t \<and> t < now - 2 * 60 * 1000)"
proof -
  from assms(2) have t: "lastCheckTick s + cleanUpInterval \<le> now"
    by (simp add: cleanUpInterval_def)
  have e: "eligible now s k =
      (\<exists>item t. map_of (memory s) k = Some item \<and>
         (state item = Loaded \<or> state item = Error) \<and>
         map_of (lastAccessTime s) k = Some t \<and> t < now - 2 * 60 * 1000)"
    by (auto simp: eligible_def split: option.splits)
  have "(\<not> exist k (clean_fresh now s)) = eligible now s k"
    using assms(1,3) t by (simp add: exist_keys clean_keys del: set_map)
  then show ?thesis by (simp only: e)
qed

theorem clean_evicts_iff_witness:
  "distinct (map fst (memory
     (snd (run_fresh_touch (loaded_sprite @ pending_palette) (init_fresh [10, 11, 12, 13]))))) \<and>
   lastCheckTick (snd (run_fresh_touch (loaded_sprite @ pending_palette)
     (init_fresh [10, 11, 12, 13]))) + 30 * 1000 \<le> 150000 \<and>
   exist ''a.spr''
     (snd (run_fresh_touch (loaded_sprite @ pending_palette) (init_fresh [10, 11, 12, 13]))) \<and>
   exist ''b.pal''
     (snd (run_fresh_touch (loaded_sprite @ pending_palette) (init_fresh [10, 11, 12, 13]))) \<and>
   \<not> exist ''a.spr'' (clean_fresh 150000
     (snd (run_fresh_touch (loaded_sprite @ pending_palette) (init_fresh [10, 11, 12, 13])))) \<and>
   exist ''b.pal'' (clean_fresh 150000
     (snd (run_fresh_touch (loaded_sprite @ pending_palette) (init_fresh [10, 11, 12, 13]))))"
proof -
  let ?s = "snd (run_fresh_touch (loaded_sprite @ pending_palette) (init_fresh [10, 11, 12, 13]))"
  have h: "distinct (map fst (memory ?s))" "lastCheckTick ?s + 30 * 1000 \<le> 150000"
    by (simp_all add: two_entries_fresh)
  have x: "exist ''a.spr'' ?s" "exist ''b.pal'' ?s"
    by (simp_all add: two_entries_fresh exist_def)
  have a: "\<not> exist ''a.spr'' (clean_fresh 150000 ?s)"
    using clean_evicts_iff [OF h x(1)] by (simp add: two_entries_fresh)
  have b: "exist ''b.pal'' (clean_fresh 150000 ?s)"
    using clean_evicts_iff [OF h x(2)] by (simp add: two_entries_fresh)
  show ?thesis by (intro conjI h x a b)
qed

text \<open>
  The claim as stated, with \<open>lastAccess \<le> now - rememberTime\<close>, fails at the boundary: an
  entry that is loaded and was last used at 0 is still in the cache after the pass at 120000.
\<close>

theorem clean_keeps_at_window:
  "lastCheckTick (snd (run_fresh_touch loaded_sprite (init_fresh [10, 11, 12]))) + 30 * 1000
     \<le> 120000 \<and>
   map_of (memory (snd (run_fresh_touch loaded_sprite (init_fresh [10, 11, 12])))) ''a.spr'' =
     Some \<lparr>state = Loaded, data = sprite, listeners = []\<rparr> \<and>
   map_of (lastAccessTime (snd (run_fresh_touch loaded_sprite (init_fresh [10, 11, 12])))) ''a.spr''
     = Some 0 \<and>
   (0 :: int) \<le> 120000 - 2 * 60 * 1000 \<and>
   exist ''a.spr'' (clean_fresh 120000 (snd (run_fresh_touch loaded_sprite (init_fresh [10, 11, 12]))))"
  by (simp add: loaded_sprite_fresh clean_fresh_def exist_def older_def complete_def
      rememberTime_def cleanUpInterval_def)

subsection \<open>Timestamps of the keys in the cache\<close>

text \<open>
  Claim C3, as amended. In the second version, after a sequence of \<open>get\<close>, \<open>set\<close>,
  \<open>exist\<close>, \<open>remove\<close>, \<open>clean\<close> and \<open>search\<close> in which every \<open>get\<close> is followed by
  \<open>updateAccessTime\<close> of its key and every \<open>set\<close> names a key that is in the cache when it
  is called, every key of the cache has a timestamp, when that was so at the start. \<open>set\<close>
  never writes a timestamp.
\<close>

theorem timestamps_when_sets_follow_gets:
  assumes "set (map fst (memory s)) \<subseteq> set (map fst (lastAccessTime s))"
      and "sets_follow_gets xs s"
  shows "set (map fst (memory (snd (run_fresh_touch xs s)))) \<subseteq>
           set (map fst (lastAccessTime (snd (run_fresh_touch xs s)))) \<and>
         lastAccessTime (set_fresh k d e s) = lastAccessTime s"
proof -
  have "fst ` set (memory s) \<subseteq> fst ` set (lastAccessTime s) \<Longrightarrow> sets_follow_gets xs s \<Longrightarrow>
      fst ` set (memory (snd (run_fresh_touch xs s))) \<subseteq>
        fst ` set (lastAccessTime (snd (run_fresh_touch xs s)))"
  proof (induction xs arbitrary: s)
    case Nil
    then show ?case by simp
  next
    case (Cons x xs)
    from Cons.prems(2) have a: "sets_follow_gets [x] s"
      and b: "sets_follow_gets xs (snd (step_fresh_touch x s))"
      using sets_follow_gets_Cons by blast+
    show ?case
      using Cons.IH [OF timestamped_step [OF Cons.prems(1) a] b] by (simp add: split_beta)
  qed
  then show ?thesis using assms by simp
qed

theorem timestamps_when_sets_follow_gets_witness:
  "set (map fst (memory (init_fresh [10, 11, 12]))) \<subseteq>
     set (map fst (lastAccessTime (init_fresh [10, 11, 12]))) \<and>
   sets_follow_gets (loaded_sprite @ pending_palette @ [OpRemove ''a.spr''])
     (init_fresh [10, 11, 12]) \<and>
   map fst (memory (snd (run_fresh_touch (loaded_sprite @ pending_palette @ [OpRemove ''a.spr''])
       (init_fresh [10, 11, 12])))) = [''b.pal''] \<and>
   set (map fst (memory (snd (run_fresh_touch (loaded_sprite @ pending_palette @ [OpRemove ''a.spr''])
       (init_fresh [10, 11, 12]))))) \<subseteq>
     set (map fst (lastAccessTime (snd (run_fresh_touch
       (loaded_sprite @ pending_palette @ [OpRemove ''a.spr'']) (init_fresh [10, 11, 12]))))) \<and>
   lastAccessTime (set_fresh ''c.dat'' Falsy True (init_fresh [10, 11, 12])) = []"
proof -
  have a: "set (map fst (memory (init_fresh [10, 11, 12]))) \<subseteq>
      set (map fst (lastAccessTime (init_fresh [10, 11, 12])))"
    by (simp add: init_fresh_def)
  have b: "sets_follow_gets (loaded_sprite @ pending_palette @ [OpRemove ''a.spr''])
      (init_fresh [10, 11, 12])"
    by (simp add: loaded_sprite_def pending_palette_def exist_def eval_defs)
  have c: "map fst (memory (snd (run_fresh_touch
      (loaded_sprite @ pending_palette @ [OpRemove ''a.spr'']) (init_fresh [10, 11, 12])))) = [''b.pal'']"
    by (simp add: loaded_sprite_def pending_palette_def eval_defs sprite_def split_beta)
  note r = timestamps_when_sets_follow_gets [OF a b, of "''c.dat''" Falsy True]
  have d: "set (map fst (memory (snd (run_fresh_touch
      (loaded_sprite @ pending_palette @ [OpRemove ''a.spr'']) (init_fresh [10, 11, 12]))))) \<subseteq>
     set (map fst (lastAccessTime (snd (run_fresh_touch
       (loaded_sprite @ pending_palette @ [OpRemove ''a.spr'']) (init_fresh [10, 11, 12])))))"
    using r by blast
  have e: "lastAccessTime (set_fresh ''c.dat'' Falsy True (init_fresh [10, 11, 12])) = []"
    using r by (simp add: init_fresh_def)
  show ?thesis by (intro conjI a b c d e)
qed

text \<open>
  The claim as stated fails for an entry that \<open>set\<close> alone creates: the key is in the cache
  and the timestamp map has no entry for it.
\<close>

theorem set_alone_no_timestamp:
  "exist ''a.spr'' (set_fresh ''a.spr'' sprite False (init_fresh [])) \<and>
   map_of (lastAccessTime (set_fresh ''a.spr'' sprite False (init_fresh []))) ''a.spr'' = None"
  by (simp add: exist_def eval_defs)

subsection \<open>The two versions\<close>

text \<open>
  Claim C9. The two versions are not equivalent as they are written: on the sequence
  \<open>get\<close>, \<open>set\<close>, \<open>clean\<close>, \<open>remove\<close> of one key the first version throws
  \<open>ReferenceError\<close> in \<open>get\<close>, in \<open>clean\<close> and in \<open>remove\<close>, and the second version
  returns from every call.
\<close>

theorem versions_differ_on_get:
  "fst (run_pool (loaded_sprite @ [OpClean 150000, OpRemove ''a.spr'']) (init_pool [10, 11, 12])) =
     [Threw ReferenceError, RetVoid, Threw ReferenceError, Threw ReferenceError] \<and>
   fst (run_fresh (loaded_sprite @ [OpClean 150000, OpRemove ''a.spr'']) (init_fresh [10, 11, 12])) =
     [RetData Falsy, RetVoid, RetVoid, RetVoid]"
  by (simp add: loaded_sprite_def eval_defs sprite_def clean_pool_def clean_fresh_def older_def
      rememberTime_def cleanUpInterval_def remove_pool_def remove_fresh_def free_file_def
      delete_if_texture_def ext_of_examples exist_def split_beta)

end
